theory Spec2Isabelle
  imports Complex_Main "HOL-Library.Monad_Syntax"
begin

section \<open>Numbers\<close>

text \<open>
  The program computes with JavaScript numbers, which are IEEE double-precision values.
  They are modelled at two levels.

  \<^item> Exact: a number is the real number it stands for and arithmetic is exact. The
    non-finite values (NaN, the infinities) have no counterpart, so a division whose
    divisor is a parameter is only meaningful for a non-zero divisor, and every theorem
    about such a function carries that as a hypothesis. \<open>Math.PI\<close> is \<open>pi\<close>. The
    orbital model, the SPICE rows, the rotational dials and the Earth clocks are given
    at this level.

  \<^item> Double precision (section below): every operation rounds its exact result to the
    nearest double, and a result that is not a finite number is \<open>None\<close>. The wrap
    helper, the clock formatting and the Mars clocks are given at this level, because
    what is claimed of them depends on the rounding and on overflow.
\<close>

text \<open>
  The remainder operator \<open>n % m\<close> of the language: \<open>n - m * q\<close> where \<open>q\<close> is the
  quotient \<open>n / m\<close> rounded towards zero, so the result has the sign of \<open>n\<close>.
\<close>

definition js_trunc :: "real \<Rightarrow> int" where
  "js_trunc x = (if 0 \<le> x then \<lfloor>x\<rfloor> else \<lceil>x\<rceil>)"

definition js_rem :: "real \<Rightarrow> real \<Rightarrow> real" where
  "js_rem n m = n - m * of_int (js_trunc (n / m))"

definition Math_floor :: "real \<Rightarrow> real" where
  "Math_floor x = of_int \<lfloor>x\<rfloor>"

definition Math_hypot :: "real \<Rightarrow> real \<Rightarrow> real" where
  "Math_hypot a b = sqrt (a * a + b * b)"

text \<open>\<open>Math.atan2(y, x)\<close>: the angle of the point \<open>(x, y)\<close> in \<open>(-pi, pi]\<close>, and 0 at the origin.\<close>

definition Math_atan2 :: "real \<Rightarrow> real \<Rightarrow> real" where
  "Math_atan2 y x =
     (if 0 < x then arctan (y / x)
      else if x < 0 then (if 0 \<le> y then arctan (y / x) + pi else arctan (y / x) - pi)
      else if 0 < y then pi / 2
      else if y < 0 then - (pi / 2)
      else 0)"

section \<open>Double precision\<close>

text \<open>
  A finite double is a real of the form \<open>k * 2^q\<close> with \<open>\<bar>k\<bar> < 2^53\<close> and
  \<open>-1074 \<le> q \<le> 971\<close>. \<open>rd x\<close> is the double nearest to the real \<open>x\<close>, the even
  significand winning a tie; when the rounded magnitude reaches \<open>2^1024\<close> the operation
  overflows and the result is not a finite number (\<open>None\<close>). The spacing of the doubles
  around \<open>x\<close> is \<open>2^(e - 52)\<close> where \<open>2^e \<le> \<bar>x\<bar> < 2^(e + 1)\<close>, and \<open>2^(-1074)\<close> below
  \<open>2^(-1022)\<close>.
\<close>

definition pow2 :: "int \<Rightarrow> real" where
  "pow2 e = (if 0 \<le> e then 2 ^ nat e else 1 / 2 ^ nat (- e))"

definition expo :: "real \<Rightarrow> int" where
  "expo x = \<lfloor>log 2 \<bar>x\<bar>\<rfloor>"

text \<open>Rounding to the nearest integer, a tie going to the even one.\<close>

definition rne :: "real \<Rightarrow> int" where
  "rne y =
     (let f = \<lfloor>y\<rfloor>; d = y - of_int f
      in if d < 1 / 2 then f
         else if 1 / 2 < d then f + 1
         else if even f then f else f + 1)"

definition rd :: "real \<Rightarrow> real option" where
  "rd x =
     (if x = 0 then Some 0
      else let e = max (expo x) (- 1022);
               u = pow2 (e - 52);
               r = u * of_int (rne (x / u))
           in if pow2 1024 \<le> \<bar>r\<bar> then None else Some r)"

text \<open>
  The operators \<open>+\<close>, \<open>*\<close>, \<open>/\<close> and \<open>%\<close> on finite doubles. The remainder of two finite
  doubles is exact; a zero divisor gives an infinity or NaN.
\<close>

definition fadd :: "real \<Rightarrow> real \<Rightarrow> real option" where
  "fadd a b = rd (a + b)"

definition fmul :: "real \<Rightarrow> real \<Rightarrow> real option" where
  "fmul a b = rd (a * b)"


definition frem :: "real \<Rightarrow> real \<Rightarrow> real option" where
  "frem a b = (if b = 0 then None else Some (js_rem a b))"

section \<open>Utilities\<close>

text \<open>\<open>const mod = (n, m) => ((n % m) + m) % m\<close>, in exact arithmetic.\<close>

definition mod_js :: "real \<Rightarrow> real \<Rightarrow> real" where
  "mod_js n m = js_rem (js_rem n m + m) m"

text \<open>The same function in double precision: the sum \<open>(n % m) + m\<close> is rounded.\<close>

definition mod_double :: "real \<Rightarrow> real \<Rightarrow> real option" where
  "mod_double n m = do { r \<leftarrow> frem n m; s \<leftarrow> fadd r m; frem s m }"

definition toRad :: "real \<Rightarrow> real" where
  "toRad deg = (deg * pi) / 180"

definition toDeg :: "real \<Rightarrow> real" where
  "toDeg rad = (rad * 180) / pi"

text \<open>
  The decimal numeral of an integer, as a template literal prints an integer-valued
  number. \<open>pad2\<close> and \<open>formatHMS\<close> only ever print such numbers.
\<close>

fun digits_of :: "nat \<Rightarrow> string" where
  "digits_of n =
     (if n < 10 then [char_of (48 + n)]
      else digits_of (n div 10) @ [char_of (48 + n mod 10)])"

declare digits_of.simps [simp del]

definition number_to_string :: "real \<Rightarrow> string" where
  "number_to_string n =
     (if n < 0 then ''-'' @ digits_of (nat (- \<lfloor>n\<rfloor>)) else digits_of (nat \<lfloor>n\<rfloor>))"

text \<open>\<open>pad2\<close> of a number that may be NaN, which prints as \<open>NaN\<close>.\<close>

definition pad2 :: "real option \<Rightarrow> string" where
  "pad2 n =
     (case n of
        None \<Rightarrow> ''NaN''
      | Some v \<Rightarrow> if v < 10 then ''0'' @ number_to_string v else number_to_string v)"

text \<open>
  The three numbers \<open>h\<close>, \<open>m\<close>, \<open>s\<close> that \<open>formatHMS\<close> computes before printing them, in
  double precision: the products \<open>hoursFloat * 60\<close> and \<open>hoursFloat * 3600\<close> are each
  rounded. \<open>Math.floor\<close> of a double is exact.
\<close>

definition formatHMS_fields :: "real \<Rightarrow> real option \<times> real option \<times> real option" where
  "formatHMS_fields hoursFloat =
     (let h = mod_double (Math_floor hoursFloat) 24;
          m = map_option Math_floor (do { a \<leftarrow> fmul hoursFloat 60; mod_double a 60 });
          s = map_option Math_floor (do { b \<leftarrow> fmul hoursFloat 3600; mod_double b 60 })
      in (h, m, s))"

definition formatHMS :: "real \<Rightarrow> string" where
  "formatHMS hoursFloat =
     (case formatHMS_fields hoursFloat of
        (h, m, s) \<Rightarrow> pad2 h @ '':'' @ pad2 m @ '':'' @ pad2 s)"

definition formatHMS24 :: "real \<Rightarrow> string" where
  "formatHMS24 hoursFloat =
     (case mod_double hoursFloat 24 of None \<Rightarrow> ''NaN:NaN:NaN'' | Some h \<Rightarrow> formatHMS h)"

section \<open>Dates\<close>

text \<open>
  A \<open>Date\<close> is its time value, the milliseconds since 1970-01-01T00:00:00Z, and the
  UTC accessors are the arithmetic of the language standard on that value. The time
  value of a valid \<open>Date\<close> is at most \<open>8.64 * 10^15\<close> in magnitude (\<open>valid_time\<close>);
  invalid dates are not modelled.
\<close>

type_synonym Date = int

definition valid_time :: "int \<Rightarrow> bool" where
  "valid_time t = (\<bar>t\<bar> \<le> 8640000000000000)"

definition msPerDay :: int where
  "msPerDay = 86400000"

definition getTime :: "Date \<Rightarrow> int" where
  "getTime d = d"

definition Day :: "int \<Rightarrow> int" where
  "Day t = t div msPerDay"

definition DayFromYear :: "int \<Rightarrow> int" where
  "DayFromYear y =
     365 * (y - 1970) + (y - 1969) div 4 - (y - 1901) div 100 + (y - 1601) div 400"

definition TimeFromYear :: "int \<Rightarrow> int" where
  "TimeFromYear y = msPerDay * DayFromYear y"

text \<open>
  The year of a time value is the largest \<open>y\<close> with \<open>TimeFromYear y \<le> t\<close>. It is
  computed from an estimate with the mean year length, which is off by at most one.
\<close>

definition YearFromTime :: "int \<Rightarrow> int" where
  "YearFromTime t =
     (let d = Day t;
          y0 = 1970 + (d * 10000) div 3652425
      in if d < DayFromYear y0 then y0 - 1
         else if DayFromYear (y0 + 1) \<le> d then y0 + 1
         else y0)"

definition getUTCFullYear :: "Date \<Rightarrow> int" where
  "getUTCFullYear d = YearFromTime d"

definition getUTCHours :: "Date \<Rightarrow> int" where
  "getUTCHours d = (d div 3600000) mod 24"

definition getUTCMinutes :: "Date \<Rightarrow> int" where
  "getUTCMinutes d = (d div 60000) mod 60"

definition getUTCSeconds :: "Date \<Rightarrow> int" where
  "getUTCSeconds d = (d div 1000) mod 60"

definition getUTCMilliseconds :: "Date \<Rightarrow> int" where
  "getUTCMilliseconds d = d mod 1000"

text \<open>
  \<open>TimeClip\<close> of the language standard: a time value beyond the range of a \<open>Date\<close>
  becomes NaN (\<open>None\<close>).
\<close>

definition TimeClip :: "int \<Rightarrow> int option" where
  "TimeClip t = (if 8640000000000000 < \<bar>t\<bar> then None else Some t)"

text \<open>
  \<open>Date.UTC(year, 0, 1)\<close>: midnight of the first of January, clipped. A year from 0 to
  99 is read as 1900 + year.
\<close>

definition Date_UTC_Jan1 :: "int \<Rightarrow> int option" where
  "Date_UTC_Jan1 year =
     TimeClip (TimeFromYear (if 0 \<le> year \<and> year \<le> 99 then 1900 + year else year))"

text \<open>The day of the year; NaN (\<open>None\<close>) when \<open>start\<close> is.\<close>

definition dayOfYearUTC :: "Date \<Rightarrow> int option" where
  "dayOfYearUTC d =
     (case Date_UTC_Jan1 (getUTCFullYear d) of
        None \<Rightarrow> None
      | Some start \<Rightarrow> Some (\<lfloor>real_of_int (getTime d - start) / 86400000\<rfloor> + 1))"

section \<open>Equation of time, Earth and Mars\<close>

definition equationOfTimeMinutes :: "Date \<Rightarrow> real option" where
  "equationOfTimeMinutes date =
     (case dayOfYearUTC date of
        None \<Rightarrow> None
      | Some Nd \<Rightarrow>
          Some (let N = real_of_int Nd;
                    hours = real_of_int (getUTCHours date) + real_of_int (getUTCMinutes date) / 60
                            + real_of_int (getUTCSeconds date) / 3600;
                    gamma = (2 * pi / 365) * (N - 1 + (hours - 12) / 24)
                in 229.18 * (0.000075 + 0.001868 * cos gamma - 0.032077 * sin gamma
                             - 0.014615 * cos (2 * gamma) - 0.040849 * sin (2 * gamma))))"

definition julianDateUTC :: "Date \<Rightarrow> real" where
  "julianDateUTC date = real_of_int (getTime date) / 86400000 + 2440587.5"

definition earthMeanSolarTimeHours :: "Date \<Rightarrow> real \<Rightarrow> real" where
  "earthMeanSolarTimeHours dateUTC lon =
     (let utcHours = real_of_int (getUTCHours dateUTC) + real_of_int (getUTCMinutes dateUTC) / 60
                     + real_of_int (getUTCSeconds dateUTC) / 3600
                     + real_of_int (getUTCMilliseconds dateUTC) / 3600000
      in mod_js (utcHours + lon / 15) 24)"

definition earthApparentSolarTimeHours :: "Date \<Rightarrow> real \<Rightarrow> real option" where
  "earthApparentSolarTimeHours dateUTC lon =
     (case equationOfTimeMinutes dateUTC of
        None \<Rightarrow> None
      | Some eot \<Rightarrow> Some (mod_js (earthMeanSolarTimeHours dateUTC lon + eot / 60) 24))"

definition TAI_MINUS_UTC_SECONDS :: real where
  "TAI_MINUS_UTC_SECONDS = 37"

definition TT_MINUS_UTC_SECONDS :: real where
  "TT_MINUS_UTC_SECONDS = TAI_MINUS_UTC_SECONDS + 32.184"

definition marsSolDate :: "real \<Rightarrow> real" where
  "marsSolDate jdUTC =
     (let jdTT = jdUTC + TT_MINUS_UTC_SECONDS / 86400
      in (jdTT - 2405522.0028779) / 1.0274912517)"



section \<open>Orbital bodies (circular model)\<close>

definition AU_KM :: real where
  "AU_KM = 149597870.7"

definition J2000_TT :: real where
  "J2000_TT = 2451545.0"

record OrbitalBody =
  name :: string
  a_AU :: real
  T_days :: real

definition getOrbitalBodies :: "OrbitalBody list" where
  "getOrbitalBodies =
     [\<lparr>name = ''Mercury'', a_AU = 0.38709893, T_days = 87.969\<rparr>,
      \<lparr>name = ''Venus'', a_AU = 0.72333199, T_days = 224.701\<rparr>,
      \<lparr>name = ''Earth'', a_AU = 1.00000011, T_days = 365.256\<rparr>,
      \<lparr>name = ''Mars'', a_AU = 1.52366231, T_days = 686.98\<rparr>,
      \<lparr>name = ''Jupiter'', a_AU = 5.20336301, T_days = 4332.589\<rparr>,
      \<lparr>name = ''Saturn'', a_AU = 9.53707032, T_days = 10759.22\<rparr>,
      \<lparr>name = ''Uranus'', a_AU = 19.19126393, T_days = 30688.5\<rparr>,
      \<lparr>name = ''Neptune'', a_AU = 30.06896348, T_days = 60182\<rparr>]"

definition meanLongitudeDeg :: "real \<Rightarrow> real \<Rightarrow> real" where
  "meanLongitudeDeg jdTT T = mod_js (((jdTT - J2000_TT) / T) * 360) 360"

definition speedKmPerSec :: "real \<Rightarrow> real \<Rightarrow> real" where
  "speedKmPerSec a T = (2 * pi * a * AU_KM) / T / 86400"

text \<open>
  \<open>OrbitalRow\<close> has the fields \<open>name, a, theta, x, y, v, T\<close>; they are prefixed here
  to keep the one-letter names free for variables.
\<close>

record OrbitalRow =
  row_name :: string
  row_a :: real
  row_theta :: real
  row_x :: real
  row_y :: real
  row_v :: real
  row_T :: real

definition circularRows :: "real \<Rightarrow> OrbitalRow list" where
  "circularRows jdTT =
     map (\<lambda>b.
            let theta = meanLongitudeDeg jdTT (T_days b);
                v = speedKmPerSec (a_AU b) (T_days b);
                x = a_AU b * cos (toRad theta);
                y = a_AU b * sin (toRad theta)
            in \<lparr>row_name = name b, row_a = a_AU b, row_theta = theta,
                row_x = x, row_y = y, row_v = v, row_T = T_days b\<rparr>)
         getOrbitalBodies"

section \<open>The SPICE data source\<close>

text \<open>
  One element of the backend's JSON array, with the fields \<open>fetchSpiceStates\<close> reads
  (\<open>name\<close> is prefixed: the catalog record has a field of that name).
\<close>

record SpiceRow =
  sr_name :: string
  x_km :: real
  y_km :: real
  vx_km_s :: real
  vy_km_s :: real

record SpiceState =
  x_AU :: real
  y_AU :: real
  thetaDeg :: real
  v_kms :: real

text \<open>
  What the request can come back with: \<open>fetch\<close> rejects, or it resolves to a response
  with a status code and a body, which either parses to an array of rows or does not.
\<close>

datatype http_result = NetworkError | Response nat "SpiceRow list option"

definition res_ok :: "nat \<Rightarrow> bool" where
  "res_ok status = (200 \<le> status \<and> status \<le> 299)"

datatype fetch_error = FetchRejected | HttpError nat | BadJson

text \<open>The entry that the loop body computes for one row of the parsed array.\<close>

definition spice_state :: "SpiceRow \<Rightarrow> SpiceState" where
  "spice_state row =
     (let x_AU = x_km row / AU_KM;
          y_AU = y_km row / AU_KM;
          thetaDeg = mod_js (toDeg (Math_atan2 y_AU x_AU)) 360;
          v_kms = Math_hypot (vx_km_s row) (vy_km_s row)
      in \<lparr>x_AU = x_AU, y_AU = y_AU, thetaDeg = thetaDeg, v_kms = v_kms\<rparr>)"

text \<open>
  The loop \<open>for (const row of json) { ...; out[row.name] = {...} }\<close>: a later row of the
  same name overwrites an earlier one.
\<close>

fun spice_out :: "(string \<rightharpoonup> SpiceState) \<Rightarrow> SpiceRow list \<Rightarrow> (string \<rightharpoonup> SpiceState)" where
  "spice_out out [] = out"
| "spice_out out (row # json) = spice_out (out(sr_name row \<mapsto> spice_state row)) json"

definition fetchSpiceStates :: "http_result \<Rightarrow> fetch_error + (string \<rightharpoonup> SpiceState)" where
  "fetchSpiceStates res =
     (case res of
        NetworkError \<Rightarrow> Inl FetchRejected
      | Response status body \<Rightarrow>
          if \<not> res_ok status then Inl (HttpError status)
          else (case body of
                  None \<Rightarrow> Inl BadJson
                | Some json \<Rightarrow> Inr (spice_out Map.empty json)))"

datatype dataSource = model | spice

datatype spiceStatus = idle | loading | ok | error

record source_state =
  rows :: "OrbitalRow list"
  spiceStatus :: spiceStatus

text \<open>The \<open>map\<close> and \<open>filter(Boolean)\<close> of the \<open>then\<close> branch.\<close>

definition merged_rows :: "(string \<rightharpoonup> SpiceState) \<Rightarrow> OrbitalRow list" where
  "merged_rows mp =
     List.map_filter (\<lambda>b.
        case mp (name b) of
          Some m \<Rightarrow>
            let v = speedKmPerSec (a_AU b) (T_days b)
            in Some \<lparr>row_name = name b, row_a = a_AU b, row_theta = thetaDeg m,
                     row_x = x_AU m, row_y = y_AU m, row_v = v, row_T = T_days b\<rparr>
        | None \<Rightarrow> None)
       getOrbitalBodies"

text \<open>
  The effect that builds the rows, in its two halves: what runs at once, and what runs
  when the request settles with \<open>res\<close>. \<open>rows_effect\<close> is the whole tick.
\<close>

definition rows_effect_start :: "dataSource \<Rightarrow> real \<Rightarrow> source_state \<Rightarrow> source_state" where
  "rows_effect_start ds visualJDTT st =
     (if ds = spice then st\<lparr>spiceStatus := loading\<rparr>
      else st\<lparr>rows := circularRows visualJDTT, spiceStatus := idle\<rparr>)"

definition rows_effect_settle :: "http_result \<Rightarrow> real \<Rightarrow> source_state \<Rightarrow> source_state" where
  "rows_effect_settle res visualJDTT st =
     (case fetchSpiceStates res of
        Inr mp \<Rightarrow>
          let merged = merged_rows mp
          in if length merged \<noteq> 0 then st\<lparr>rows := merged, spiceStatus := ok\<rparr>
             else st\<lparr>rows := circularRows visualJDTT, spiceStatus := error\<rparr>
      | Inl e \<Rightarrow> st\<lparr>rows := circularRows visualJDTT, spiceStatus := error\<rparr>)"

definition rows_effect :: "dataSource \<Rightarrow> http_result \<Rightarrow> real \<Rightarrow> source_state \<Rightarrow> source_state" where
  "rows_effect ds res visualJDTT st =
     (if ds = spice then rows_effect_settle res visualJDTT (rows_effect_start ds visualJDTT st)
      else rows_effect_start ds visualJDTT st)"

section \<open>Rotational clocks\<close>

definition MOONS :: "(string \<times> real) list" where
  "MOONS =
     [(''Phobos'', 7.653), (''Deimos'', 30.35), (''Io'', 42.459), (''Europa'', 85.228),
      (''Ganymede'', 171.709), (''Callisto'', 400.536), (''Titan'', 382.68), (''Rhea'', 108.45),
      (''Iapetus'', 1903.7), (''Enceladus'', 32.89), (''Titania'', 208.95), (''Oberon'', 323.1),
      (''Triton'', 141.0)]"

definition rotationCT_24hDial :: "real \<Rightarrow> real \<Rightarrow> real \<Rightarrow> real" where
  "rotationCT_24hDial jdTT periodHours epochJDTT =
     (let days = (jdTT - epochJDTT) / (periodHours / 24)
      in mod_js (js_rem days 1 * 24) 24)"

definition rotationCount :: "real \<Rightarrow> real \<Rightarrow> real \<Rightarrow> int" where
  "rotationCount jdTT periodHours epochJDTT = \<lfloor>(jdTT - epochJDTT) / (periodHours / 24)\<rfloor>"

text \<open>
  \<open>genericCT\<close> is local to the component and reads the component's \<open>jdTT\<close> when its
  optional third argument is absent; that \<open>jdTT\<close> is the first argument here.
\<close>

definition genericCT :: "real \<Rightarrow> real \<Rightarrow> real \<Rightarrow> real option \<Rightarrow> real" where
  "genericCT jdTT hoursPerSolarDay epoch jdTTlocal =
     (let base = (case jdTTlocal of Some j \<Rightarrow> j | None \<Rightarrow> jdTT);
          days = (base - epoch) / (hoursPerSolarDay / 24)
      in mod_js (js_rem days 1 * 24) 24)"

record RotBody =
  solarDayHours :: real
  epochJDTT :: real

definition Bodies_Moon :: RotBody where
  "Bodies_Moon = \<lparr>solarDayHours = 29.530588 * 24, epochJDTT = 2451545\<rparr>"

definition Bodies_Mercury :: RotBody where
  "Bodies_Mercury = \<lparr>solarDayHours = 175.938 * 24, epochJDTT = 2451545\<rparr>"

definition Bodies_Venus :: RotBody where
  "Bodies_Venus = \<lparr>solarDayHours = - 116.75 * 24, epochJDTT = 2451545\<rparr>"

definition Bodies_Jupiter :: RotBody where
  "Bodies_Jupiter = \<lparr>solarDayHours = 9.925, epochJDTT = 2451545\<rparr>"

definition venusDayNum :: "real \<Rightarrow> int" where
  "venusDayNum jdTT =
     \<lfloor>(jdTT - epochJDTT Bodies_Venus) / (solarDayHours Bodies_Venus / 24)\<rfloor>"

definition jupiterDayNum :: "real \<Rightarrow> int" where
  "jupiterDayNum jdTT =
     \<lfloor>(jdTT - epochJDTT Bodies_Jupiter) / (solarDayHours Bodies_Jupiter / 24)\<rfloor>"

definition moonCTmap :: "real \<Rightarrow> (string \<times> real) list" where
  "moonCTmap jdTT = map (\<lambda>(k, v). (k, rotationCT_24hDial jdTT v J2000_TT)) MOONS"

section \<open>Self checks\<close>

text \<open>The speed that \<open>runSelfChecks\<close> computes for the catalog body of a given name.\<close>

definition catalog_speed :: "string \<Rightarrow> real option" where
  "catalog_speed nm =
     map_option (\<lambda>b. speedKmPerSec (a_AU b) (T_days b))
       (find (\<lambda>b. name b = nm) getOrbitalBodies)"

section \<open>The year of a time value\<close>

text \<open>
  \<open>YearFromTime\<close> returns the year whose first day is at or before the day of the time
  value and whose successor's first day is after it, which is how the language standard
  defines it.
\<close>

lemma int_div_bracket:
  fixes x k :: int
  assumes "0 < k"
  shows "k * (x div k) \<le> x" and "x < k * (x div k) + k"
proof -
  have e: "x = k * (x div k) + x mod k" by simp
  have "0 \<le> x mod k" "x mod k < k" using assms by simp_all
  then show "k * (x div k) \<le> x" and "x < k * (x div k) + k"
    using e by linarith+
qed

lemma DayFromYear_bounds:
  "3652425 * (y - 1970) - 12650 \<le> 10000 * DayFromYear y"
  "10000 * DayFromYear y \<le> 3652425 * (y - 1970) + 14725"
proof -
  define A where "A = (y - 1969) div 4"
  define B where "B = (y - 1901) div 100"
  define C where "C = (y - 1601) div 400"
  have a: "4 * A \<le> y - 1969" "y - 1969 \<le> 4 * A + 3"
    unfolding A_def using int_div_bracket [of 4 "y - 1969"] by simp_all
  have b: "100 * B \<le> y - 1901" "y - 1901 \<le> 100 * B + 99"
    unfolding B_def using int_div_bracket [of 100 "y - 1901"] by simp_all
  have c: "400 * C \<le> y - 1601" "y - 1601 \<le> 400 * C + 399"
    unfolding C_def using int_div_bracket [of 400 "y - 1601"] by simp_all
  have D: "DayFromYear y = 365 * (y - 1970) + A - B + C"
    by (simp add: DayFromYear_def A_def B_def C_def)
  show "3652425 * (y - 1970) - 12650 \<le> 10000 * DayFromYear y"
    unfolding D using a b c by simp
  show "10000 * DayFromYear y \<le> 3652425 * (y - 1970) + 14725"
    unfolding D using a b c by simp
qed

lemma YearFromTime_bracket:
  "DayFromYear (YearFromTime t) \<le> Day t \<and> Day t < DayFromYear (YearFromTime t + 1)"
proof -
  define d where "d = Day t"
  define q where "q = (d * 10000) div 3652425"
  have q: "3652425 * q \<le> d * 10000" "d * 10000 < 3652425 * q + 3652425"
    unfolding q_def using int_div_bracket [of 3652425 "d * 10000"] by simp_all
  have lo: "DayFromYear (1970 + q - 1) \<le> d"
    using DayFromYear_bounds(2) [of "1970 + q - 1"] q by simp
  have hi: "d < DayFromYear (1970 + q + 1 + 1)"
    using DayFromYear_bounds(1) [of "1970 + q + 1 + 1"] q by simp
  have Y: "YearFromTime t =
             (if d < DayFromYear (1970 + q) then 1970 + q - 1
              else if DayFromYear (1970 + q + 1) \<le> d then 1970 + q + 1
              else 1970 + q)"
    by (simp only: YearFromTime_def Let_def d_def q_def)
  show ?thesis
    unfolding Y d_def [symmetric] using lo hi by auto
qed

section \<open>The wrap helper\<close>

lemma js_rem_nonneg:
  assumes "0 < m" "0 \<le> n"
  shows "0 \<le> js_rem n m \<and> js_rem n m < m"
proof -
  have q: "0 \<le> n / m" using assms by simp
  have e: "m * (n / m) = n" using assms(1) by simp
  have "m * of_int \<lfloor>n / m\<rfloor> \<le> m * (n / m)"
    using assms(1) by (intro mult_left_mono) auto
  moreover have "m * (n / m) < m * (of_int \<lfloor>n / m\<rfloor> + 1)"
    using assms(1) by (intro mult_strict_left_mono) (linarith, simp)
  ultimately have "m * of_int \<lfloor>n / m\<rfloor> \<le> n" "n < m * of_int \<lfloor>n / m\<rfloor> + m"
    unfolding e by (simp_all add: algebra_simps)
  then show ?thesis
    using q by (simp add: js_rem_def js_trunc_def)
qed

lemma js_rem_neg:
  assumes "0 < m" "n < 0"
  shows "- m < js_rem n m \<and> js_rem n m \<le> 0"
proof -
  have q: "\<not> 0 \<le> n / m" using assms by (simp add: field_simps)
  have e: "m * (n / m) = n" using assms(1) by simp
  have "m * (n / m) \<le> m * of_int \<lceil>n / m\<rceil>"
    using assms(1) by (intro mult_left_mono) auto
  moreover have "m * (of_int \<lceil>n / m\<rceil> - 1) < m * (n / m)"
    using assms(1) by (intro mult_strict_left_mono) (linarith, simp)
  ultimately have "n \<le> m * of_int \<lceil>n / m\<rceil>" "m * of_int \<lceil>n / m\<rceil> - m < n"
    unfolding e by (simp_all add: algebra_simps)
  then show ?thesis
    using q by (simp add: js_rem_def js_trunc_def)
qed

lemma mod_js_bounds:
  assumes "0 < m"
  shows "0 \<le> mod_js n m" and "mod_js n m < m"
proof -
  have "0 \<le> js_rem n m + m"
    using js_rem_nonneg [OF assms, of n] js_rem_neg [OF assms, of n]
    by (cases "0 \<le> n") auto
  then have "0 \<le> js_rem (js_rem n m + m) m \<and> js_rem (js_rem n m + m) m < m"
    by (rule js_rem_nonneg [OF assms])
  then show "0 \<le> mod_js n m" and "mod_js n m < m"
    by (simp_all add: mod_js_def)
qed

lemma mod_js_shift: "\<exists>k::int. mod_js n m = n - m * of_int k"
proof -
  define a where "a = js_trunc (n / m)"
  define b where "b = js_trunc ((js_rem n m + m) / m)"
  have "mod_js n m = n - m * of_int (a + b - 1)"
    by (simp add: mod_js_def js_rem_def a_def b_def algebra_simps)
  then show ?thesis ..
qed

lemma mod_js_floor:
  assumes "0 < m"
  shows "mod_js n m = n - m * of_int \<lfloor>n / m\<rfloor>"
proof -
  obtain k :: int where k: "mod_js n m = n - m * of_int k"
    using mod_js_shift by blast
  have lo: "0 \<le> n - m * of_int k" and hi: "n - m * of_int k < m"
    using mod_js_bounds [OF assms, of n] k by simp_all
  have "of_int k \<le> n / m"
    using lo assms by (simp add: field_simps)
  moreover have "n / m < of_int k + 1"
    using hi assms by (simp add: field_simps)
  ultimately have "\<lfloor>n / m\<rfloor> = k"
    by (intro floor_unique) simp_all
  with k show ?thesis by simp
qed

lemma mod_js_ident:
  assumes "0 \<le> x" "x < m"
  shows "mod_js x m = x"
proof -
  have m: "0 < m" using assms by linarith
  have "\<lfloor>x / m\<rfloor> = 0"
    using assms m by (intro floor_unique) simp_all
  then show ?thesis by (simp add: mod_js_floor [OF m])
qed

lemma mod_js_multiple:
  assumes "0 < m"
  shows "mod_js (m * of_int k) m = 0"
  using assms by (simp add: mod_js_floor [OF assms])

section \<open>Rounding to double precision\<close>

lemma pow2_powr: "pow2 e = 2 powr (of_int e)"
proof (cases "0 \<le> e")
  case True
  then have "(2::real) powr (of_int e) = 2 powr (real (nat e))" by simp
  also have "\<dots> = 2 ^ nat e" by (simp add: powr_realpow)
  finally show ?thesis using True by (simp add: pow2_def)
next
  case False
  then have "(2::real) powr (of_int e) = 2 powr (- real (nat (- e)))" by simp
  also have "\<dots> = 1 / 2 ^ nat (- e)" by (simp add: powr_minus powr_realpow divide_inverse)
  finally show ?thesis using False by (simp add: pow2_def)
qed

lemma pow2_pos: "0 < pow2 e"
  by (simp add: pow2_powr)

lemma pow2_add: "pow2 (a + b) = pow2 a * pow2 b"
  by (simp add: pow2_powr powr_add)

lemma pow2_mono: "a \<le> b \<Longrightarrow> pow2 a \<le> pow2 b"
  by (simp add: pow2_powr)

lemma pow2_less_cancel: "pow2 a < pow2 b \<Longrightarrow> a < b"
  by (simp add: pow2_powr)

lemma pow2_of_int: "0 \<le> k \<Longrightarrow> pow2 k = of_int (2 ^ nat k)"
  by (simp add: pow2_def)

lemma expo_bounds:
  assumes "x \<noteq> 0"
  shows "pow2 (expo x) \<le> \<bar>x\<bar>" and "\<bar>x\<bar> < pow2 (expo x + 1)"
proof -
  have p: "0 < \<bar>x\<bar>" using assms by simp
  have "of_int \<lfloor>log 2 \<bar>x\<bar>\<rfloor> \<le> log 2 \<bar>x\<bar>" by simp
  then have "2 powr (of_int \<lfloor>log 2 \<bar>x\<bar>\<rfloor>) \<le> 2 powr (log 2 \<bar>x\<bar>)"
    by (simp only: powr_le_cancel_iff) 
  then show "pow2 (expo x) \<le> \<bar>x\<bar>"
    using p by (simp add: pow2_powr expo_def)
  have "log 2 \<bar>x\<bar> < of_int (\<lfloor>log 2 \<bar>x\<bar>\<rfloor> + 1)" by linarith
  then have "2 powr (log 2 \<bar>x\<bar>) < 2 powr (of_int (\<lfloor>log 2 \<bar>x\<bar>\<rfloor> + 1))"
    by (simp only: powr_less_cancel_iff)
  then show "\<bar>x\<bar> < pow2 (expo x + 1)"
    using p by (simp add: pow2_powr expo_def)
qed

lemma expo_eq:
  assumes "pow2 e \<le> \<bar>x\<bar>" "\<bar>x\<bar> < pow2 (e + 1)"
  shows "expo x = e"
proof -
  have x: "x \<noteq> 0" using assms(1) pow2_pos [of e] by auto
  have "pow2 e < pow2 (expo x + 1)"
    using assms(1) expo_bounds(2) [OF x] by linarith
  then have a: "e < expo x + 1" by (rule pow2_less_cancel)
  have "pow2 (expo x) < pow2 (e + 1)"
    using assms(2) expo_bounds(1) [OF x] by linarith
  then have "expo x < e + 1" by (rule pow2_less_cancel)
  with a show ?thesis by simp
qed

lemma rne_err: "\<bar>of_int (rne z) - z\<bar> \<le> 1 / 2"
proof -
  have "of_int \<lfloor>z\<rfloor> \<le> z" "z < of_int \<lfloor>z\<rfloor> + 1" by linarith+
  then show ?thesis
    by (auto simp: rne_def Let_def abs_le_iff)
qed

lemma rne_le: 
  assumes "z \<le> of_int K"
  shows "rne z \<le> K"
proof -
  have "of_int (rne z) \<le> z + 1 / 2" using rne_err [of z] by linarith
  then have "real_of_int (rne z) < of_int K + 1" using assms by linarith
  then have "rne z < K + 1" by linarith
  then show ?thesis by simp
qed

lemma rne_ge: 
  assumes "of_int K \<le> z"
  shows "K \<le> rne z"
proof -
  have "z - 1 / 2 \<le> of_int (rne z)" using rne_err [of z] by linarith
  then have "real_of_int K - 1 < of_int (rne z)" using assms by linarith
  then have "K - 1 < rne z" by linarith
  then show ?thesis by simp
qed

lemma rd_within:
  assumes K: "0 \<le> K" and q: "- 1074 \<le> q"
    and K53: "of_int K * pow2 q < pow2 (q + 53)"
    and x: "\<bar>x\<bar> \<le> of_int K * pow2 q"
    and fin: "of_int K * pow2 q < pow2 1024"
  shows "\<exists>r. rd x = Some r \<and> \<bar>r\<bar> \<le> of_int K * pow2 q \<and> \<bar>r - x\<bar> \<le> pow2 q / 2
             \<and> (0 \<le> x \<longrightarrow> 0 \<le> r) \<and> (x \<le> 0 \<longrightarrow> r \<le> 0)"
proof (cases "x = 0")
  case True
  have "0 \<le> of_int K * pow2 q" using K pow2_pos [of q] by simp
  then show ?thesis using True pow2_pos [of q] by (simp add: rd_def)
next
  case False
  define e where "e = max (expo x) (- 1022)"
  define u where "u = pow2 (e - 52)"
  define z where "z = x / u"
  define r where "r = u * of_int (rne z)"
  have u: "0 < u" by (simp add: u_def pow2_pos)
  have "pow2 (expo x) < pow2 (q + 53)"
    using expo_bounds(1) [OF False] x K53 by linarith
  then have "expo x < q + 53" by (rule pow2_less_cancel)
  then have e: "e - 52 \<le> q" using q by (simp add: e_def)
  define n where "n = q - (e - 52)"
  have n: "0 \<le> n" using e by (simp add: n_def)
  have "pow2 q = pow2 ((e - 52) + n)" by (simp add: n_def)
  then have pq: "pow2 q = u * of_int (2 ^ nat n)"
    by (simp only: pow2_add u_def pow2_of_int [OF n])
  define N where "N = K * 2 ^ nat n"
  have B: "of_int K * pow2 q = u * of_int N"
    by (simp add: pq N_def)
  have xz: "x = u * z" using u by (simp add: z_def)
  have "u * \<bar>z\<bar> \<le> u * of_int N"
    using x u unfolding B xz by (simp add: abs_mult)
  then have zN: "\<bar>z\<bar> \<le> of_int N" using u by simp
  have "rne z \<le> N" using zN by (intro rne_le) linarith
  moreover have "- N \<le> rne z" using zN by (intro rne_ge) simp
  ultimately have "\<bar>real_of_int (rne z)\<bar> \<le> of_int N" by linarith
  then have "u * \<bar>real_of_int (rne z)\<bar> \<le> u * of_int N"
    using u by (intro mult_left_mono) simp_all
  then have rB: "\<bar>r\<bar> \<le> of_int K * pow2 q"
    using u by (simp add: r_def B abs_mult)
  have "r - x = u * (of_int (rne z) - z)"
    by (simp add: r_def xz algebra_simps)
  then have "\<bar>r - x\<bar> = u * \<bar>of_int (rne z) - z\<bar>"
    using u by (simp add: abs_mult)
  also have "\<dots> \<le> u * (1 / 2)"
    using u rne_err [of z] by (intro mult_left_mono) simp_all
  also have "\<dots> \<le> pow2 q / 2"
    using pow2_mono [OF e] by (simp add: u_def)
  finally have err: "\<bar>r - x\<bar> \<le> pow2 q / 2" .
  have pos: "0 \<le> r" if "0 \<le> x"
  proof -
    have "0 \<le> z" using that u by (simp add: z_def)
    then have "0 \<le> rne z" by (intro rne_ge) simp
    then show ?thesis using u by (simp add: r_def)
  qed
  have neg: "r \<le> 0" if "x \<le> 0"
  proof -
    have "z \<le> 0" using that u by (simp add: z_def divide_le_0_iff)
    then have "rne z \<le> 0" by (intro rne_le) simp
    then show ?thesis using u by (simp add: r_def mult_le_0_iff)
  qed
  have "rd x = Some r"
    using False rB fin by (simp add: rd_def Let_def e_def u_def z_def r_def)
  then show ?thesis using rB err pos neg by simp
qed

lemma rd_eval:
  assumes "pow2 e \<le> \<bar>x\<bar>" "\<bar>x\<bar> < pow2 (e + 1)" "- 1022 \<le> e"
  shows "rd x =
           (if pow2 1024 \<le> \<bar>pow2 (e - 52) * of_int (rne (x / pow2 (e - 52)))\<bar> then None
            else Some (pow2 (e - 52) * of_int (rne (x / pow2 (e - 52)))))"
proof -
  have "x \<noteq> 0" using assms(1) pow2_pos [of e] by auto
  moreover have "max (expo x) (- 1022) = e"
    using expo_eq [OF assms(1,2)] assms(3) by simp
  ultimately show ?thesis by (simp add: rd_def Let_def)
qed

lemma js_rem_range:
  assumes "0 < m"
  shows "- m < js_rem n m" and "js_rem n m < m"
  using js_rem_nonneg [OF assms, of n] js_rem_neg [OF assms, of n]
  by (cases "0 \<le> n"; linarith)+

lemma mod_double_eval:
  assumes "m \<noteq> 0" "js_rem n m = r" "rd (r + m) = so"
  shows "mod_double n m = (case so of None \<Rightarrow> None | Some s \<Rightarrow> Some (js_rem s m))"
  using assms by (simp add: mod_double_def frem_def fadd_def split: option.splits)

lemma rd_overflow_example: "rd (5 * 2 ^ 1021 + 3 * 2 ^ 1022) = None"
  by (subst rd_eval [of 1024]) (simp_all add: pow2_def rne_def Let_def)

lemma rd_355: "rd (- 5 + 360) = Some 355"
  by (subst rd_eval [of 8]) (simp_all add: pow2_def rne_def Let_def)

lemma mod_double_example: "mod_double (- 725) 360 = Some 355"
proof -
  have r: "js_rem (- 725) 360 = - 5" by (simp add: js_rem_def js_trunc_def)
  show ?thesis
    using mod_double_eval [OF _ r rd_355] by (simp add: js_rem_def js_trunc_def)
qed

lemma js_rem_24:
  assumes "0 \<le> s" "s \<le> 48"
  shows "js_rem s 24 = (if s < 24 then s else if s < 48 then s - 24 else 0)"
proof -
  consider "s < 24" | "24 \<le> s" "s < 48" | "s = 48" using assms by linarith
  then show ?thesis
  proof cases
    case 1
    then have "\<lfloor>s / 24\<rfloor> = 0" using assms by (intro floor_unique) simp_all
    then show ?thesis using 1 assms by (simp add: js_rem_def js_trunc_def)
  next
    case 2
    then have "\<lfloor>s / 24\<rfloor> = 1" by (intro floor_unique) simp_all
    then show ?thesis using 2 by (simp add: js_rem_def js_trunc_def)
  next
    case 3
    then show ?thesis by (simp add: js_rem_def js_trunc_def)
  qed
qed






section \<open>The wrap helper in double precision\<close>

text \<open>
  Claim C4, as amended. For every finite \<open>n\<close> and every positive \<open>m\<close> up to
  \<open>2^1023 - 2^970\<close>, the largest double below \<open>2^1023\<close>, the wrap helper
  \<open>mod(n, m) = ((n % m) + m) % m\<close> returns a finite number in the half-open interval
  \<open>[0, m)\<close>; in particular the result is not negative when \<open>n\<close> is.
\<close>

theorem mod_double_in_range:
  assumes "0 < m" and "m \<le> 2 ^ 1023 - 2 ^ 970"
  shows "\<exists>r. mod_double n m = Some r \<and> 0 \<le> r \<and> r < m"
proof -
  define a where "a = js_rem n m"
  have a: "- m < a" "a < m"
    unfolding a_def using js_rem_range [OF assms(1)] by simp_all
  have B: "real_of_int (2 ^ 53 - 1) * pow2 971 = 2 ^ 1024 - 2 ^ 971"
    by (simp add: pow2_def)
  have "\<bar>a + m\<bar> \<le> real_of_int (2 ^ 53 - 1) * pow2 971"
    unfolding B using a assms(2) by simp
  moreover have "real_of_int (2 ^ 53 - 1) * pow2 971 < pow2 (971 + 53)"
    by (simp add: pow2_def)
  moreover have "real_of_int (2 ^ 53 - 1) * pow2 971 < pow2 1024"
    by (simp add: pow2_def)
  ultimately obtain s where s: "rd (a + m) = Some s" "0 \<le> a + m \<longrightarrow> 0 \<le> s"
    using rd_within [of "2 ^ 53 - 1" 971 "a + m"] by auto
  have "0 \<le> s" using s(2) a by simp
  then have "0 \<le> js_rem s m \<and> js_rem s m < m"
    by (rule js_rem_nonneg [OF assms(1)])
  moreover have "mod_double n m = Some (js_rem s m)"
    using assms(1) s(1) by (simp add: mod_double_def frem_def fadd_def a_def)
  ultimately show ?thesis by simp
qed

theorem mod_double_in_range_witness:
  "(0::real) < 360 \<and> (360::real) \<le> 2 ^ 1023 - 2 ^ 970
   \<and> (\<exists>r. mod_double (- 725) 360 = Some r \<and> 0 \<le> r \<and> r < 360)"
  using mod_double_in_range [of 360 "- 725"] by simp

text \<open>
  Claim C4 as first stated allows every positive \<open>m\<close>. For \<open>n = 1.25 * 2^1023\<close> and
  \<open>m = 1.5 * 2^1023\<close>, both finite doubles, \<open>n % m\<close> is \<open>n\<close> and the sum \<open>n + m\<close>
  overflows, so the result is not a number in \<open>[0, m)\<close>.
\<close>

theorem mod_overflow_counterexample:
  "(0::real) < 3 * 2 ^ 1022 \<and> mod_double (5 * 2 ^ 1021) (3 * 2 ^ 1022) = None"
proof -
  have m: "(3 * 2 ^ 1022 :: real) \<noteq> 0" by simp
  have r: "js_rem (5 * 2 ^ 1021) (3 * 2 ^ 1022) = 5 * 2 ^ 1021"
    by (simp add: js_rem_def js_trunc_def)
  show ?thesis
    using mod_double_eval [OF m r rd_overflow_example] by simp
qed

section \<open>The Mars clocks\<close>








section \<open>Clock formatting\<close>

lemma formatHMS_fields_eval:
  assumes "mod_double (Math_floor x) 24 = h"
    and "rd (x * 60) = Some a" "mod_double a 60 = m"
    and "rd (x * 3600) = Some b" "mod_double b 60 = s"
  shows "formatHMS_fields x = (h, map_option Math_floor m, map_option Math_floor s)"
  using assms by (simp add: formatHMS_fields_def fmul_def Let_def)

lemma fields_example_h: "mod_double (Math_floor (2448832297382707 / 2 ^ 49)) 24 = Some 4"
proof -
  have f: "Math_floor (2448832297382707 / 2 ^ 49) = 4" by (simp add: Math_floor_def)
  have a: "js_rem 4 24 = 4" by (simp add: js_rem_24)
  have s: "rd (4 + 24) = Some 28"
    by (subst rd_eval [of 4]) (simp_all add: pow2_def rne_def Let_def)
  have w: "js_rem 28 24 = 4" by (simp add: js_rem_24)
  show ?thesis
    unfolding f using mod_double_eval [OF _ a s] w by simp
qed

lemma fields_example_a: "rd (2448832297382707 / 2 ^ 49 * 60) = Some 261"
  by (subst rd_eval [of 8]) (simp_all add: pow2_def rne_def Let_def)

lemma fields_example_m: "mod_double 261 60 = Some 21"
proof -
  have a: "js_rem 261 60 = 21" by (simp add: js_rem_def js_trunc_def)
  have s: "rd (21 + 60) = Some 81"
    by (subst rd_eval [of 6]) (simp_all add: pow2_def rne_def Let_def)
  have w: "js_rem 81 60 = 21" by (simp add: js_rem_def js_trunc_def)
  show ?thesis using mod_double_eval [OF _ a s] w by simp
qed

lemma fields_example_b: "rd (2448832297382707 / 2 ^ 49 * 3600) = Some (15660 - 1 / 2 ^ 39)"
  by (subst rd_eval [of 13]) (simp_all add: pow2_def rne_def Let_def)

lemma fields_example_s: "mod_double (15660 - 1 / 2 ^ 39) 60 = Some (60 - 1 / 2 ^ 39)"
proof -
  have a: "js_rem (15660 - 1 / 2 ^ 39) 60 = 60 - 1 / 2 ^ 39"
    by (simp add: js_rem_def js_trunc_def)
  have s: "rd (60 - 1 / 2 ^ 39 + 60) = Some (120 - 1 / 2 ^ 39)"
    by (subst rd_eval [of 6]) (simp_all add: pow2_def rne_def Let_def)
  have w: "js_rem (120 - 1 / 2 ^ 39) 60 = 60 - 1 / 2 ^ 39"
    by (simp add: js_rem_def js_trunc_def)
  show ?thesis using mod_double_eval [OF _ a s] w by simp
qed

lemma formatHMS_fields_example1:
  "formatHMS_fields (2448832297382707 / 2 ^ 49) = (Some 4, Some 21, Some 59)"
  using formatHMS_fields_eval
    [OF fields_example_h fields_example_a fields_example_m fields_example_b fields_example_s]
  by (simp add: Math_floor_def)

lemma digit_chars:
  "char_of (48::nat) = CHR ''0''" "char_of (49::nat) = CHR ''1''" "char_of (50::nat) = CHR ''2''"
  "char_of (51::nat) = CHR ''3''" "char_of (52::nat) = CHR ''4''" "char_of (53::nat) = CHR ''5''"
  "char_of (54::nat) = CHR ''6''" "char_of (55::nat) = CHR ''7''" "char_of (56::nat) = CHR ''8''"
  "char_of (57::nat) = CHR ''9''"
  by code_simp+

lemma fields_example2_h: "mod_double (Math_floor (616899323957521 / 2 ^ 47)) 24 = Some 4"
proof -
  have f: "Math_floor (616899323957521 / 2 ^ 47) = 4" by (simp add: Math_floor_def)
  have a: "js_rem 4 24 = 4" by (simp add: js_rem_24)
  have s: "rd (4 + 24) = Some 28"
    by (subst rd_eval [of 4]) (simp_all add: pow2_def rne_def Let_def)
  have w: "js_rem 28 24 = 4" by (simp add: js_rem_24)
  show ?thesis
    unfolding f using mod_double_eval [OF _ a s] w by simp
qed

lemma fields_example2_a: "rd (616899323957521 / 2 ^ 47 * 60) = Some 263"
  by (subst rd_eval [of 8]) (simp_all add: pow2_def rne_def Let_def)

lemma fields_example2_m: "mod_double 263 60 = Some 23"
proof -
  have a: "js_rem 263 60 = 23" by (simp add: js_rem_def js_trunc_def)
  have s: "rd (23 + 60) = Some 83"
    by (subst rd_eval [of 6]) (simp_all add: pow2_def rne_def Let_def)
  have w: "js_rem 83 60 = 23" by (simp add: js_rem_def js_trunc_def)
  show ?thesis using mod_double_eval [OF _ a s] w by simp
qed

lemma fields_example2_b: "rd (616899323957521 / 2 ^ 47 * 3600) = Some (15780 - 1 / 2 ^ 39)"
  by (subst rd_eval [of 13]) (simp_all add: pow2_def rne_def Let_def)

lemma fields_example2_s: "mod_double (15780 - 1 / 2 ^ 39) 60 = Some (60 - 1 / 2 ^ 39)"
proof -
  have a: "js_rem (15780 - 1 / 2 ^ 39) 60 = 60 - 1 / 2 ^ 39"
    by (simp add: js_rem_def js_trunc_def)
  have s: "rd (60 - 1 / 2 ^ 39 + 60) = Some (120 - 1 / 2 ^ 39)"
    by (subst rd_eval [of 6]) (simp_all add: pow2_def rne_def Let_def)
  have w: "js_rem (120 - 1 / 2 ^ 39) 60 = 60 - 1 / 2 ^ 39"
    by (simp add: js_rem_def js_trunc_def)
  show ?thesis using mod_double_eval [OF _ a s] w by simp
qed

lemma formatHMS_fields_example2:
  "formatHMS_fields (616899323957521 / 2 ^ 47) = (Some 4, Some 23, Some 59)"
  using formatHMS_fields_eval
    [OF fields_example2_h fields_example2_a fields_example2_m fields_example2_b fields_example2_s]
  by (simp add: Math_floor_def)

lemma rewrap_example2: "mod_double (616899323957521 / 2 ^ 47) 24 = Some (616899323957521 / 2 ^ 47)"
proof -
  have a: "js_rem (616899323957521 / 2 ^ 47) 24 = 616899323957521 / 2 ^ 47"
    by (simp add: js_rem_24)
  have s: "rd (616899323957521 / 2 ^ 47 + 24) = Some (616899323957521 / 2 ^ 47 + 24)"
    by (subst rd_eval [of 4]) (simp_all add: pow2_def rne_def Let_def)
  have w: "js_rem (616899323957521 / 2 ^ 47 + 24) 24 = 616899323957521 / 2 ^ 47"
    by (simp add: js_rem_24)
  show ?thesis using mod_double_eval [OF _ a s] w by simp
qed

lemma formatHMS24_example2: "formatHMS24 (616899323957521 / 2 ^ 47) = ''04:23:59''"
proof -
  have "formatHMS24 (616899323957521 / 2 ^ 47) = formatHMS (616899323957521 / 2 ^ 47)"
    unfolding formatHMS24_def rewrap_example2 by simp
  also have "\<dots> = ''04:23:59''"
    unfolding formatHMS_def formatHMS_fields_example2
    by (simp add: pad2_def number_to_string_def digits_of.simps digit_chars)
  finally show ?thesis .
qed

text \<open>
  Claim C8. For every \<open>h\<close> in \<open>[0, 24)\<close>, the hour, minute and second that \<open>formatHMS\<close>
  computes, put together again as \<open>H + M/60 + S/3600\<close>, differ from \<open>h\<close> by less than
  \<open>1/3600\<close>, one second of time. The program does not do this: it takes the minute from
  the rounded product \<open>h * 60\<close> and the second from the rounded product \<open>h * 3600\<close>, and
  the two roundings can fall on different sides of a whole minute. The theorem evaluates
  the program at two doubles: at 4.35 hours (04:21:00) the fields are 4, 21, 59, and at
  the value of the Earth mean-solar-time tile for 04:23:00 UTC at longitude 0 they are
  4, 23, 59 and the tile reads \<open>04:23:59\<close>; both are 59 seconds from \<open>h\<close>.
\<close>

theorem formatHMS_fields_off_by_a_minute:
  "(0::real) \<le> 2448832297382707 / 2 ^ 49 \<and> (2448832297382707 / 2 ^ 49 :: real) < 24
   \<and> formatHMS_fields (2448832297382707 / 2 ^ 49) = (Some 4, Some 21, Some 59)
   \<and> \<not> \<bar>((4::real) + 21 / 60 + 59 / 3600) - 2448832297382707 / 2 ^ 49\<bar> < 1 / 3600
   \<and> (0::real) \<le> 616899323957521 / 2 ^ 47 \<and> (616899323957521 / 2 ^ 47 :: real) < 24
   \<and> formatHMS_fields (616899323957521 / 2 ^ 47) = (Some 4, Some 23, Some 59)
   \<and> \<not> \<bar>((4::real) + 23 / 60 + 59 / 3600) - 616899323957521 / 2 ^ 47\<bar> < 1 / 3600
   \<and> formatHMS24 (616899323957521 / 2 ^ 47) = ''04:23:59''"
  using formatHMS_fields_example1 formatHMS_fields_example2 formatHMS24_example2 by simp

section \<open>The Earth clocks\<close>

lemma Day_valid:
  assumes "valid_time t"
  shows "- 100000000 \<le> Day t" and "Day t \<le> 100000000"
proof -
  have b: "86400000 * (t div 86400000) \<le> t" "t < 86400000 * (t div 86400000) + 86400000"
    using int_div_bracket [of 86400000 t] by simp_all
  have t: "- 8640000000000000 \<le> t" "t \<le> 8640000000000000"
    using assms by (simp_all add: valid_time_def abs_le_iff)
  define d where "d = t div 86400000"
  have "86400000 * d \<le> 8640000000000000" "- 8640000000000000 < 86400000 * d + 86400000"
    using b t unfolding d_def by linarith+
  then have "d \<le> 100000000" "- 100000000 \<le> d" by simp_all
  then show "- 100000000 \<le> Day t" and "Day t \<le> 100000000"
    by (simp_all add: Day_def msPerDay_def d_def)
qed

lemma YearFromTime_valid:
  assumes "valid_time t"
  shows "- 271821 \<le> YearFromTime t" and "YearFromTime t \<le> 275760"
proof -
  define y where "y = YearFromTime t"
  have br: "DayFromYear y \<le> Day t" "Day t < DayFromYear (y + 1)"
    unfolding y_def using YearFromTime_bracket [of t] by simp_all
  have lo: "- 1000000000000 < 10000 * DayFromYear (y + 1)"
    using br(2) Day_valid(1) [OF assms] by simp
  have "3652425 * (- 273791) + 14725 < - (1000000000000::int)" by simp
  then have "3652425 * (- 273791) + 14725 < 3652425 * (y + 1 - 1970) + 14725"
    using lo DayFromYear_bounds(2) [of "y + 1"] by linarith
  then have "- 273791 < y + 1 - 1970" by simp
  then show "- 271821 \<le> YearFromTime t" unfolding y_def by simp
  have hi: "10000 * DayFromYear y \<le> 1000000000000"
    using br(1) Day_valid(2) [OF assms] by simp
  have "(1000000000000::int) < 3652425 * 273791 - 12650" by simp
  then have "3652425 * (y - 1970) - 12650 < 3652425 * 273791 - 12650"
    using hi DayFromYear_bounds(1) [of y] by linarith
  then have "y - 1970 < 273791" by simp
  then show "YearFromTime t \<le> 275760" unfolding y_def by simp
qed

lemma year_start_valid:
  assumes "valid_time t" "getUTCFullYear t \<noteq> - 271821"
  shows "\<exists>start. Date_UTC_Jan1 (getUTCFullYear t) = Some start"
proof -
  define y where "y = YearFromTime t"
  have y: "- 271820 \<le> y" "y \<le> 275760"
    using YearFromTime_valid [OF assms(1)] assms(2) by (simp_all add: y_def getUTCFullYear_def)
  define y' where "y' = (if 0 \<le> y \<and> y \<le> 99 then 1900 + y else y)"
  have y': "- 271820 \<le> y'" "y' \<le> 275760" using y by (simp_all add: y'_def)
  define D where "D = DayFromYear y'"
  have "3652425 * (- 273790) - 12650 \<le> 3652425 * (y' - 1970) - 12650"
    using y'(1) by simp
  then have "3652425 * (- 273790) - 12650 \<le> 10000 * D"
    using DayFromYear_bounds(1) [of y'] unfolding D_def by linarith
  then have Dlo: "- 100000000 \<le> D" by simp
  have "3652425 * (y' - 1970) + 14725 \<le> 3652425 * 273790 + 14725"
    using y'(2) by simp
  then have "10000 * D \<le> 3652425 * 273790 + 14725"
    using DayFromYear_bounds(2) [of y'] unfolding D_def by linarith
  then have Dhi: "D \<le> 100000000" by simp
  have "\<bar>86400000 * D\<bar> \<le> 8640000000000000"
    using Dlo Dhi by (simp add: abs_le_iff)
  then have "TimeClip (TimeFromYear y') = Some (TimeFromYear y')"
    by (simp add: TimeClip_def TimeFromYear_def msPerDay_def D_def)
  then show ?thesis
    by (simp add: Date_UTC_Jan1_def getUTCFullYear_def y_def [symmetric] y'_def)
qed

lemma year_of_first_instant: "getUTCFullYear (- 8640000000000000) = - 271821"
  by (simp add: getUTCFullYear_def YearFromTime_def Day_def msPerDay_def DayFromYear_def Let_def)

lemma year_of_example: "getUTCFullYear 1730419200000 = 2024"
  by (simp add: getUTCFullYear_def YearFromTime_def Day_def msPerDay_def DayFromYear_def Let_def)

text \<open>
  Claim C7, as amended. For every valid instant \<open>t\<close> outside the year -271821 and every
  longitude \<open>lon\<close>, the apparent solar time and the equation of time are numbers, and the
  apparent solar time minus the mean solar time minus the equation of time in hours,
  wrapped into \<open>[0, 24)\<close> and reduced to the smaller of the value and 24 minus the value,
  is less than 0.01 hours.
\<close>

theorem earth_identity:
  assumes "valid_time t" and "getUTCFullYear t \<noteq> - 271821"
  shows "\<exists>last eot. earthApparentSolarTimeHours t lon = Some last
           \<and> equationOfTimeMinutes t = Some eot
           \<and> (let diff = mod_js (last - earthMeanSolarTimeHours t lon - eot / 60) 24
              in min diff (24 - diff)) < 0.01"
proof -
  obtain start where "Date_UTC_Jan1 (getUTCFullYear t) = Some start"
    using year_start_valid [OF assms] by blast
  then obtain eot where eot: "equationOfTimeMinutes t = Some eot"
    by (simp add: equationOfTimeMinutes_def dayOfYearUTC_def)
  define a where "a = earthMeanSolarTimeHours t lon"
  define e where "e = eot / 60"
  have last: "earthApparentSolarTimeHours t lon = Some (mod_js (a + e) 24)"
    by (simp add: earthApparentSolarTimeHours_def eot a_def e_def)
  obtain k :: int where k: "mod_js (a + e) 24 = a + e - 24 * of_int k"
    using mod_js_shift by blast
  have "mod_js (a + e) 24 - a - e = 24 * of_int (- k)"
    by (simp add: k)
  then have "mod_js (mod_js (a + e) 24 - a - e) 24 = 0"
    by (simp only: mod_js_multiple)
  then have "(let diff = mod_js (mod_js (a + e) 24 - earthMeanSolarTimeHours t lon - eot / 60) 24
              in min diff (24 - diff)) < 0.01"
    by (simp add: a_def e_def)
  with last eot show ?thesis by blast
qed

theorem earth_identity_witness:
  "valid_time 1730419200000 \<and> getUTCFullYear 1730419200000 \<noteq> - 271821
   \<and> (\<exists>last eot. earthApparentSolarTimeHours 1730419200000 77.1025 = Some last
           \<and> equationOfTimeMinutes 1730419200000 = Some eot
           \<and> (let diff = mod_js (last - earthMeanSolarTimeHours 1730419200000 77.1025 - eot / 60) 24
              in min diff (24 - diff)) < 0.01)"
proof -
  have h1: "valid_time 1730419200000" by (simp add: valid_time_def)
  have h2: "getUTCFullYear 1730419200000 \<noteq> - 271821" by (simp add: year_of_example)
  show ?thesis
    using h1 h2 earth_identity [OF h1 h2, of "77.1025"] by simp
qed

text \<open>
  Claim C7 as first stated speaks of every instant. The range of \<open>Date\<close> begins in the
  course of the year -271821, so \<open>Date.UTC(-271821, 0, 1)\<close> is NaN, and with it the day
  of the year, the equation of time and the apparent solar time of every instant of
  that year, the first one of the range among them.
\<close>

theorem earth_identity_counterexample:
  "valid_time (- 8640000000000000)
   \<and> equationOfTimeMinutes (- 8640000000000000) = None
   \<and> earthApparentSolarTimeHours (- 8640000000000000) 0 = None"
  by (simp add: valid_time_def earthApparentSolarTimeHours_def equationOfTimeMinutes_def
      dayOfYearUTC_def Date_UTC_Jan1_def TimeClip_def TimeFromYear_def msPerDay_def
      year_of_first_instant DayFromYear_def)

section \<open>Day numbers of Venus and Jupiter\<close>

text \<open>
  Claim C5. For Terrestrial-Time Julian Dates \<open>jdTT1 \<le> jdTT2\<close>, the day number
  \<open>floor((jdTT - epoch) / (periodHours / 24))\<close> of Venus, whose solar day is negative, does
  not increase from \<open>jdTT1\<close> to \<open>jdTT2\<close>, and that of Jupiter, whose rotation period is
  positive, does not decrease.
\<close>

theorem dayNumber_direction:
  assumes "jdTT1 \<le> jdTT2"
  shows "venusDayNum jdTT2 \<le> venusDayNum jdTT1 \<and> jupiterDayNum jdTT1 \<le> jupiterDayNum jdTT2"
proof
  have "(jdTT2 - 2451545) / (- 116.75 * 24 / 24) \<le> (jdTT1 - 2451545) / (- 116.75 * 24 / 24)"
    using assms by (simp add: field_simps)
  then show "venusDayNum jdTT2 \<le> venusDayNum jdTT1"
    unfolding venusDayNum_def Bodies_Venus_def by (simp add: floor_mono)
next
  have "(jdTT1 - 2451545) / (9.925 / 24) \<le> (jdTT2 - 2451545) / (9.925 / 24)"
    using assms by (simp add: field_simps)
  then show "jupiterDayNum jdTT1 \<le> jupiterDayNum jdTT2"
    unfolding jupiterDayNum_def Bodies_Jupiter_def by (simp add: floor_mono)
qed

theorem dayNumber_direction_witness:
  "(2451545.5::real) \<le> 2451800
   \<and> venusDayNum 2451800 \<le> venusDayNum 2451545.5
   \<and> jupiterDayNum 2451545.5 \<le> jupiterDayNum 2451800"
  using dayNumber_direction [of "2451545.5" 2451800] by simp

section \<open>Orbital speeds\<close>

lemma sum_below_7:
  fixes f :: "nat \<Rightarrow> real"
  shows "(\<Sum>m<7. f m) = f 0 + f 1 + f 2 + f 3 + f 4 + f 5 + f 6"
proof -
  have "{..<7::nat} = {0, 1, 2, 3, 4, 5, 6}" by auto
  then show ?thesis by simp
qed

lemma sin_coeff_values:
  "sin_coeff (Suc 0) = 1" "sin_coeff 2 = 0" "sin_coeff 3 = - 1 / 6"
  "sin_coeff 4 = 0" "sin_coeff 5 = 1 / 120" "sin_coeff 6 = 0"
  by (simp_all add: sin_coeff_def fact_numeral)

lemma fact_7: "fact 7 = (5040::real)"
  by (simp add: fact_numeral)

lemma sin_taylor7:
  fixes x :: real
  assumes "0 \<le> x"
  shows "\<bar>sin x - (x - x ^ 3 / 6 + x ^ 5 / 120)\<bar> \<le> x ^ 7 / 5040"
proof -
  have s: "(\<Sum>m<7. sin_coeff m * x ^ m) = x - x ^ 3 / 6 + x ^ 5 / 120"
    unfolding sum_below_7 by (simp add: sin_coeff_values)
  have f: "inverse (fact 7) * \<bar>x\<bar> ^ 7 = x ^ 7 / 5040"
    unfolding fact_7 using assms by simp
  show ?thesis
    using Maclaurin_sin_bound [of x 7] unfolding s f .
qed

lemma pi_gt_314: "3.14 < pi"
proof (rule ccontr)
  assume "\<not> 3.14 < pi"
  then have le: "pi / 6 \<le> 157 / 300" by simp
  have "sin (pi / 6) \<le> sin (157 / 300)"
    using le pi_ge_two by (intro sin_monotone_2pi_le) simp_all
  moreover have "(157 / 300 :: real) - (157 / 300) ^ 3 / 6 + (157 / 300) ^ 5 / 120
                   + (157 / 300) ^ 7 / 5040 < 1 / 2"
    by (simp add: power_divide)
  then have "sin (157 / 300 :: real) < 1 / 2"
    using sin_taylor7 [of "157 / 300"] by linarith
  ultimately show False by (simp add: sin_30)
qed

lemma pi_lt_315: "pi < 3.15"
proof (rule ccontr)
  assume "\<not> pi < 3.15"
  then have le: "21 / 40 \<le> pi / 6" by simp
  have "sin (21 / 40) \<le> sin (pi / 6)"
    using le pi_ge_two by (intro sin_monotone_2pi_le) simp_all
  moreover have "1 / 2 < (21 / 40 :: real) - (21 / 40) ^ 3 / 6 + (21 / 40) ^ 5 / 120
                   - (21 / 40) ^ 7 / 5040"
    by (simp add: power_divide)
  then have "1 / 2 < sin (21 / 40 :: real)"
    using sin_taylor7 [of "21 / 40"] by linarith
  ultimately show False by (simp add: sin_30)
qed

lemma catalog_speed_Earth:
  "catalog_speed ''Earth'' = Some (speedKmPerSec 1.00000011 365.256)"
  by (simp add: catalog_speed_def getOrbitalBodies_def)

lemma catalog_speed_Mercury:
  "catalog_speed ''Mercury'' = Some (speedKmPerSec 0.38709893 87.969)"
  by (simp add: catalog_speed_def getOrbitalBodies_def)

lemma catalog_speed_Neptune:
  "catalog_speed ''Neptune'' = Some (speedKmPerSec 30.06896348 60182)"
  by (simp add: catalog_speed_def getOrbitalBodies_def)

lemma speed_Earth: "29.28 \<le> speedKmPerSec 1.00000011 365.256 \<and> speedKmPerSec 1.00000011 365.256 \<le> 30.28"
  using pi_gt_314 pi_lt_315 by (simp add: speedKmPerSec_def AU_KM_def field_simps)

lemma speed_Mercury: "46.36 \<le> speedKmPerSec 0.38709893 87.969 \<and> speedKmPerSec 0.38709893 87.969 \<le> 48.36"
  using pi_gt_314 pi_lt_315 by (simp add: speedKmPerSec_def AU_KM_def field_simps)

lemma speed_Neptune: "5.23 \<le> speedKmPerSec 30.06896348 60182 \<and> speedKmPerSec 30.06896348 60182 \<le> 5.63"
  using pi_gt_314 pi_lt_315 by (simp add: speedKmPerSec_def AU_KM_def field_simps)

text \<open>
  Claim C9. The mean circular speeds that \<open>speedKmPerSec\<close> gives for the catalog constants
  lie in \<open>[29.28, 30.28]\<close> km/s for Earth, \<open>[46.36, 48.36]\<close> for Mercury and
  \<open>[5.23, 5.63]\<close> for Neptune.
\<close>

theorem orbital_speed_bounds:
  "\<exists>vE vM vN.
     catalog_speed ''Earth'' = Some vE \<and> 29.28 \<le> vE \<and> vE \<le> 30.28
     \<and> catalog_speed ''Mercury'' = Some vM \<and> 46.36 \<le> vM \<and> vM \<le> 48.36
     \<and> catalog_speed ''Neptune'' = Some vN \<and> 5.23 \<le> vN \<and> vN \<le> 5.63"
  using catalog_speed_Earth catalog_speed_Mercury catalog_speed_Neptune
    speed_Earth speed_Mercury speed_Neptune by blast

section \<open>The two rotational dials\<close>

text \<open>
  Claim C10. For every \<open>jdTT\<close>, every non-zero \<open>periodHours\<close> and every epoch, \<open>genericCT\<close>
  of the main component and the standalone \<open>rotationCT_24hDial\<close> return equal values,
  whether \<open>genericCT\<close> is given the date or reads the component's.
\<close>

theorem genericCT_eq_rotationCT:
  assumes "periodHours \<noteq> 0"
  shows "genericCT jd0 periodHours epoch (Some jdTT) = rotationCT_24hDial jdTT periodHours epoch
         \<and> genericCT jdTT periodHours epoch None = rotationCT_24hDial jdTT periodHours epoch"
  by (simp add: genericCT_def rotationCT_24hDial_def)

theorem genericCT_eq_rotationCT_witness:
  "(9.925::real) \<noteq> 0
   \<and> genericCT 0 9.925 2451545 (Some 2451546) = rotationCT_24hDial 2451546 9.925 2451545
   \<and> genericCT 2451546 9.925 2451545 None = rotationCT_24hDial 2451546 9.925 2451545"
  using genericCT_eq_rotationCT [of "9.925" 0 2451545 2451546] by simp

section \<open>Rows from the SPICE source\<close>

lemma find_append_case:
  "find P (xs @ ys) = (case find P xs of None \<Rightarrow> find P ys | Some x \<Rightarrow> Some x)"
  by (induction xs) simp_all

lemma find_Some_member: "find P xs = Some x \<Longrightarrow> x \<in> set xs \<and> P x"
  by (induction xs) (auto split: if_splits)

lemma spice_out_find:
  "spice_out out json k =
     (case find (\<lambda>e. sr_name e = k) (rev json) of
        Some e \<Rightarrow> Some (spice_state e)
      | None \<Rightarrow> out k)"
proof (induction json arbitrary: out)
  case Nil
  show ?case by simp
next
  case (Cons row json)
  show ?case
    by (simp add: Cons.IH find_append_case split: option.splits)
qed

lemma spice_out_None:
  "spice_out Map.empty json k = None \<longleftrightarrow> k \<notin> sr_name ` set json"
proof (cases "find (\<lambda>e. sr_name e = k) (rev json)")
  case None
  then have "k \<notin> sr_name ` set json" by (auto simp: find_None_iff)
  with None show ?thesis by (simp add: spice_out_find)
next
  case (Some e)
  then have "e \<in> set json" "sr_name e = k"
    using find_Some_member [of "\<lambda>e. sr_name e = k" "rev json" e] by simp_all
  then have "k \<in> sr_name ` set json" by blast
  with Some show ?thesis by (simp add: spice_out_find)
qed

lemma map_filter_names:
  "map row_name
     (List.map_filter (\<lambda>b. case mp (name b) of
          Some m \<Rightarrow>
            let v = speedKmPerSec (a_AU b) (T_days b)
            in Some \<lparr>row_name = name b, row_a = a_AU b, row_theta = thetaDeg m,
                     row_x = x_AU m, row_y = y_AU m, row_v = v, row_T = T_days b\<rparr>
        | None \<Rightarrow> None) bs)
   = filter (\<lambda>n. mp n \<noteq> None) (map name bs)"
  by (induction bs) (auto split: option.splits)

lemma merged_rows_names:
  "map row_name (merged_rows mp) = filter (\<lambda>n. mp n \<noteq> None) (map name getOrbitalBodies)"
  unfolding merged_rows_def by (rule map_filter_names)

lemma merged_rows_Nil:
  "merged_rows mp = [] \<longleftrightarrow> (\<forall>b\<in>set getOrbitalBodies. mp (name b) = None)"
proof -
  have "merged_rows mp = [] \<longleftrightarrow> map row_name (merged_rows mp) = []" by simp
  also have "\<dots> \<longleftrightarrow> (\<forall>b\<in>set getOrbitalBodies. mp (name b) = None)"
    unfolding merged_rows_names by (auto simp: filter_empty_conv)
  finally show ?thesis .
qed

lemma merged_rows_member:
  assumes "r \<in> set (merged_rows mp)"
  shows "\<exists>b\<in>set getOrbitalBodies. \<exists>m. mp (name b) = Some m
           \<and> r = \<lparr>row_name = name b, row_a = a_AU b, row_theta = thetaDeg m,
                   row_x = x_AU m, row_y = y_AU m,
                   row_v = speedKmPerSec (a_AU b) (T_days b), row_T = T_days b\<rparr>"
  using assms unfolding merged_rows_def
  by (fastforce simp: List.map_filter_def split: option.splits)

lemma circularRows_length: "length (circularRows jd) = 8"
  by (simp add: circularRows_def getOrbitalBodies_def)

lemma rows_effect_fallback:
  assumes "(\<exists>e. fetchSpiceStates res = Inl e)
           \<or> (\<exists>mp. fetchSpiceStates res = Inr mp \<and> merged_rows mp = [])"
  shows "rows_effect spice res jd st = st\<lparr>rows := circularRows jd, spiceStatus := error\<rparr>"
  using assms by (auto simp: rows_effect_def rows_effect_settle_def rows_effect_start_def)

lemma rows_effect_merged:
  assumes "fetchSpiceStates res = Inr mp" "merged_rows mp \<noteq> []"
  shows "rows_effect spice res jd st = st\<lparr>rows := merged_rows mp, spiceStatus := ok\<rparr>"
  using assms by (auto simp: rows_effect_def rows_effect_settle_def rows_effect_start_def)

lemma rows_effect_success:
  assumes "res_ok status" "\<exists>b\<in>set getOrbitalBodies. name b \<in> sr_name ` set json"
  shows "rows_effect spice (Response status (Some json)) jd st
           = st\<lparr>rows := merged_rows (spice_out Map.empty json), spiceStatus := ok\<rparr>"
proof -
  have "fetchSpiceStates (Response status (Some json)) = Inr (spice_out Map.empty json)"
    using assms(1) by (simp add: fetchSpiceStates_def)
  moreover have "merged_rows (spice_out Map.empty json) \<noteq> []"
    using assms(2) by (simp add: merged_rows_Nil spice_out_None)
  ultimately show ?thesis by (rule rows_effect_merged)
qed

lemma rows_effect_earth_example:
  "rows (rows_effect spice
           (Response 200 (Some [\<lparr>sr_name = ''Earth'', x_km = 149597870.7, y_km = 0,
                                  vx_km_s = 0, vy_km_s = 30\<rparr>]))
           2451545 \<lparr>rows = [], spiceStatus = idle\<rparr>)
     = [\<lparr>row_name = ''Earth'', row_a = 1.00000011, row_theta = 0, row_x = 1, row_y = 0,
          row_v = speedKmPerSec 1.00000011 365.256, row_T = 365.256\<rparr>]"
  by (simp add: rows_effect_def rows_effect_start_def rows_effect_settle_def fetchSpiceStates_def
       res_ok_def merged_rows_def getOrbitalBodies_def spice_state_def AU_KM_def Math_atan2_def
       toDeg_def mod_js_def js_rem_def js_trunc_def List.map_filter_def)

lemma earth_speed_below_30: "speedKmPerSec 1.00000011 365.256 < 30"
  using pi_lt_315 by (simp add: speedKmPerSec_def AU_KM_def field_simps)

text \<open>
  Claim C1. With the SPICE source selected, when the request fails (it is rejected, the
  status is not a success, the body does not parse) or its response maps none of the
  catalog bodies, the row table is that of \<open>circularRows\<close> at the same time, it is not
  empty, and the status is \<open>error\<close>.
\<close>

theorem external_failure_falls_back:
  assumes "res = NetworkError
           \<or> (\<exists>status body. res = Response status body \<and> \<not> res_ok status)
           \<or> (\<exists>status. res = Response status None)
           \<or> (\<exists>status json. res = Response status (Some json)
                 \<and> (\<forall>b\<in>set getOrbitalBodies. name b \<notin> sr_name ` set json))"
  shows "rows (rows_effect spice res jd st) = circularRows jd
         \<and> rows (rows_effect spice res jd st) \<noteq> []
         \<and> spiceStatus (rows_effect spice res jd st) = error"
proof -
  have "(\<exists>e. fetchSpiceStates res = Inl e)
        \<or> (\<exists>mp. fetchSpiceStates res = Inr mp \<and> merged_rows mp = [])"
  proof (cases res)
    case NetworkError
    then show ?thesis by (simp add: fetchSpiceStates_def)
  next
    case (Response status body)
    show ?thesis
    proof (cases "res_ok status")
      case False
      with Response show ?thesis by (simp add: fetchSpiceStates_def)
    next
      case True
      show ?thesis
      proof (cases body)
        case None
        with Response True show ?thesis by (simp add: fetchSpiceStates_def)
      next
        case (Some json)
        with Response True assms
        have "\<forall>b\<in>set getOrbitalBodies. name b \<notin> sr_name ` set json" by simp
        then have "merged_rows (spice_out Map.empty json) = []"
          by (simp add: merged_rows_Nil spice_out_None)
        with Response True Some show ?thesis by (simp add: fetchSpiceStates_def)
      qed
    qed
  qed
  then have "rows_effect spice res jd st = st\<lparr>rows := circularRows jd, spiceStatus := error\<rparr>"
    by (auto intro: rows_effect_fallback)
  moreover have "circularRows jd \<noteq> []"
    using circularRows_length [of jd] by auto
  ultimately show ?thesis by simp
qed


theorem external_failure_falls_back_witness:
  "(Response 200 (Some []) = NetworkError
    \<or> (\<exists>status body. Response 200 (Some []) = Response status body \<and> \<not> res_ok status)
    \<or> (\<exists>status. Response 200 (Some []) = Response status None)
    \<or> (\<exists>status json. Response 200 (Some []) = Response status (Some json)
          \<and> (\<forall>b\<in>set getOrbitalBodies. name b \<notin> sr_name ` set json)))
   \<and> (rows (rows_effect spice (Response 200 (Some [])) 2451545 \<lparr>rows = [], spiceStatus = idle\<rparr>)
         = circularRows 2451545
      \<and> rows (rows_effect spice (Response 200 (Some [])) 2451545 \<lparr>rows = [], spiceStatus = idle\<rparr>)
         \<noteq> []
      \<and> spiceStatus
          (rows_effect spice (Response 200 (Some [])) 2451545 \<lparr>rows = [], spiceStatus = idle\<rparr>)
         = error)"
proof -
  have h: "Response 200 (Some []) = NetworkError
    \<or> (\<exists>status body. Response 200 (Some []) = Response status body \<and> \<not> res_ok status)
    \<or> (\<exists>status. Response 200 (Some []) = Response status None)
    \<or> (\<exists>status json. Response 200 (Some []) = Response status (Some json)
          \<and> (\<forall>b\<in>set getOrbitalBodies. name b \<notin> sr_name ` set json))"
    by simp
  show ?thesis
    by (rule conjI [OF h external_failure_falls_back [OF h]])
qed

text \<open>
  Claim C2, as amended. After a successful request that maps at least one catalog body,
  every row of the table belongs to a catalog body \<open>b\<close> and to the last response row \<open>e\<close>
  of that name: \<open>x\<close> and \<open>y\<close> are the kilometres of \<open>e\<close> divided by \<open>AU_KM\<close>, the angle is
  \<open>mod(toDeg(atan2(y, x)), 360)\<close>, and the speed is the mean speed
  \<open>speedKmPerSec(a_AU, T_days)\<close> of the catalog body, as are \<open>a\<close> and \<open>T\<close>; the speed
  \<open>hypot(vx_km_s, vy_km_s)\<close> computed from the response is not used.
\<close>

theorem spice_rows_from_external:
  assumes "res_ok status"
    and "\<exists>b\<in>set getOrbitalBodies. name b \<in> sr_name ` set json"
    and "r \<in> set (rows (rows_effect spice (Response status (Some json)) jd st))"
  shows "\<exists>b\<in>set getOrbitalBodies. \<exists>e.
           find (\<lambda>e. sr_name e = name b) (rev json) = Some e
           \<and> row_name r = name b
           \<and> row_x r = x_km e / AU_KM
           \<and> row_y r = y_km e / AU_KM
           \<and> row_theta r = mod_js (toDeg (Math_atan2 (y_km e / AU_KM) (x_km e / AU_KM))) 360
           \<and> row_v r = speedKmPerSec (a_AU b) (T_days b)
           \<and> row_a r = a_AU b
           \<and> row_T r = T_days b"
proof -
  have "r \<in> set (merged_rows (spice_out Map.empty json))"
    using assms(3) by (simp add: rows_effect_success [OF assms(1,2)])
  then obtain b m where b: "b \<in> set getOrbitalBodies"
    and m: "spice_out Map.empty json (name b) = Some m"
    and r: "r = \<lparr>row_name = name b, row_a = a_AU b, row_theta = thetaDeg m,
                  row_x = x_AU m, row_y = y_AU m,
                  row_v = speedKmPerSec (a_AU b) (T_days b), row_T = T_days b\<rparr>"
    using merged_rows_member by blast
  from m obtain e where e: "find (\<lambda>e. sr_name e = name b) (rev json) = Some e"
    and me: "m = spice_state e"
    by (auto simp: spice_out_find split: option.splits)
  have "row_name r = name b \<and> row_x r = x_km e / AU_KM \<and> row_y r = y_km e / AU_KM
        \<and> row_theta r = mod_js (toDeg (Math_atan2 (y_km e / AU_KM) (x_km e / AU_KM))) 360
        \<and> row_v r = speedKmPerSec (a_AU b) (T_days b) \<and> row_a r = a_AU b \<and> row_T r = T_days b"
    by (simp add: r me spice_state_def Let_def)
  with b e show ?thesis by blast
qed

theorem spice_rows_from_external_witness:
  "res_ok 200
   \<and> (\<exists>b\<in>set getOrbitalBodies.
         name b \<in> sr_name ` set [\<lparr>sr_name = ''Earth'', x_km = 149597870.7, y_km = 0,
                                    vx_km_s = 0, vy_km_s = 30\<rparr>])
   \<and> \<lparr>row_name = ''Earth'', row_a = 1.00000011, row_theta = 0, row_x = 1, row_y = 0,
        row_v = speedKmPerSec 1.00000011 365.256, row_T = 365.256\<rparr>
       \<in> set (rows (rows_effect spice
                 (Response 200 (Some [\<lparr>sr_name = ''Earth'', x_km = 149597870.7, y_km = 0,
                                        vx_km_s = 0, vy_km_s = 30\<rparr>]))
                 2451545 \<lparr>rows = [], spiceStatus = idle\<rparr>))
   \<and> (\<exists>b\<in>set getOrbitalBodies. \<exists>e.
         find (\<lambda>e. sr_name e = name b)
           (rev [\<lparr>sr_name = ''Earth'', x_km = 149597870.7, y_km = 0, vx_km_s = 0, vy_km_s = 30\<rparr>])
           = Some e
         \<and> ''Earth'' = name b
         \<and> 1 = x_km e / AU_KM
         \<and> 0 = y_km e / AU_KM
         \<and> 0 = mod_js (toDeg (Math_atan2 (y_km e / AU_KM) (x_km e / AU_KM))) 360
         \<and> speedKmPerSec 1.00000011 365.256 = speedKmPerSec (a_AU b) (T_days b)
         \<and> 1.00000011 = a_AU b
         \<and> 365.256 = T_days b)"
proof -
  have h1: "res_ok 200" by (simp add: res_ok_def)
  have h2: "\<exists>b\<in>set getOrbitalBodies.
         name b \<in> sr_name ` set [\<lparr>sr_name = ''Earth'', x_km = 149597870.7, y_km = 0,
                                    vx_km_s = 0, vy_km_s = 30\<rparr>]"
    by (simp add: getOrbitalBodies_def)
  have h3: "\<lparr>row_name = ''Earth'', row_a = 1.00000011, row_theta = 0, row_x = 1, row_y = 0,
        row_v = speedKmPerSec 1.00000011 365.256, row_T = 365.256\<rparr>
       \<in> set (rows (rows_effect spice
                 (Response 200 (Some [\<lparr>sr_name = ''Earth'', x_km = 149597870.7, y_km = 0,
                                        vx_km_s = 0, vy_km_s = 30\<rparr>]))
                 2451545 \<lparr>rows = [], spiceStatus = idle\<rparr>))"
    by (simp add: rows_effect_earth_example)
  show ?thesis
    using h1 h2 h3 spice_rows_from_external [OF h1 h2 h3] by simp
qed

text \<open>
  Claim C2 as first stated takes the speed of such a row to be \<open>hypot(vx_km_s, vy_km_s)\<close>.
  For a response that gives Earth at \<open>(AU_KM, 0)\<close> with velocity \<open>(0, 30)\<close> km/s the one
  row of the table has the catalog's mean speed, which is below 30, and not \<open>hypot(0, 30)\<close>.
\<close>

theorem spice_speed_counterexample:
  "res_ok 200
   \<and> map row_name
        (rows (rows_effect spice
           (Response 200 (Some [\<lparr>sr_name = ''Earth'', x_km = 149597870.7, y_km = 0,
                                  vx_km_s = 0, vy_km_s = 30\<rparr>]))
           2451545 \<lparr>rows = [], spiceStatus = idle\<rparr>)) = [''Earth'']
   \<and> map row_v
        (rows (rows_effect spice
           (Response 200 (Some [\<lparr>sr_name = ''Earth'', x_km = 149597870.7, y_km = 0,
                                  vx_km_s = 0, vy_km_s = 30\<rparr>]))
           2451545 \<lparr>rows = [], spiceStatus = idle\<rparr>)) \<noteq> [Math_hypot 0 30]"
proof -
  have "Math_hypot 0 30 = 30" by (simp add: Math_hypot_def)
  then have "speedKmPerSec 1.00000011 365.256 \<noteq> Math_hypot 0 30"
    using earth_speed_below_30 by simp
  then show ?thesis
    by (simp add: rows_effect_earth_example res_ok_def)
qed

text \<open>
  Claim C3. After a successful request whose response maps some but not all of the
  catalog bodies, the row table holds exactly the mapped bodies, in catalog order, and
  no others; the status is \<open>ok\<close>. (The statement holds for any response that maps at
  least one body.)
\<close>

theorem partial_mapping_rows:
  assumes "res_ok status"
    and "\<exists>b\<in>set getOrbitalBodies. name b \<in> sr_name ` set json"
  shows "map row_name (rows (rows_effect spice (Response status (Some json)) jd st))
           = filter (\<lambda>n. n \<in> sr_name ` set json) (map name getOrbitalBodies)
         \<and> spiceStatus (rows_effect spice (Response status (Some json)) jd st) = ok"
  by (simp add: rows_effect_success [OF assms] merged_rows_names spice_out_None)

theorem partial_mapping_rows_witness:
  "res_ok 200
   \<and> (\<exists>b\<in>set getOrbitalBodies.
         name b \<in> sr_name ` set
           [\<lparr>sr_name = ''Mars'', x_km = - 200000000, y_km = 100000000, vx_km_s = - 10, vy_km_s = - 20\<rparr>,
            \<lparr>sr_name = ''Venus'', x_km = 100000000, y_km = 30000000, vx_km_s = - 10, vy_km_s = 33\<rparr>,
            \<lparr>sr_name = ''Earth'', x_km = 149597870.7, y_km = 0, vx_km_s = 0, vy_km_s = 30\<rparr>])
   \<and> map row_name (rows (rows_effect spice
         (Response 200 (Some
           [\<lparr>sr_name = ''Mars'', x_km = - 200000000, y_km = 100000000, vx_km_s = - 10, vy_km_s = - 20\<rparr>,
            \<lparr>sr_name = ''Venus'', x_km = 100000000, y_km = 30000000, vx_km_s = - 10, vy_km_s = 33\<rparr>,
            \<lparr>sr_name = ''Earth'', x_km = 149597870.7, y_km = 0, vx_km_s = 0, vy_km_s = 30\<rparr>]))
         2451545 \<lparr>rows = [], spiceStatus = idle\<rparr>))
       = [''Venus'', ''Earth'', ''Mars'']
   \<and> spiceStatus (rows_effect spice
         (Response 200 (Some
           [\<lparr>sr_name = ''Mars'', x_km = - 200000000, y_km = 100000000, vx_km_s = - 10, vy_km_s = - 20\<rparr>,
            \<lparr>sr_name = ''Venus'', x_km = 100000000, y_km = 30000000, vx_km_s = - 10, vy_km_s = 33\<rparr>,
            \<lparr>sr_name = ''Earth'', x_km = 149597870.7, y_km = 0, vx_km_s = 0, vy_km_s = 30\<rparr>]))
         2451545 \<lparr>rows = [], spiceStatus = idle\<rparr>) = ok"
proof -
  have h1: "res_ok 200" by (simp add: res_ok_def)
  have h2: "\<exists>b\<in>set getOrbitalBodies.
         name b \<in> sr_name ` set
           [\<lparr>sr_name = ''Mars'', x_km = - 200000000, y_km = 100000000, vx_km_s = - 10, vy_km_s = - 20\<rparr>,
            \<lparr>sr_name = ''Venus'', x_km = 100000000, y_km = 30000000, vx_km_s = - 10, vy_km_s = 33\<rparr>,
            \<lparr>sr_name = ''Earth'', x_km = 149597870.7, y_km = 0, vx_km_s = 0, vy_km_s = 30\<rparr>]"
    by (simp add: getOrbitalBodies_def)
  have f: "filter (\<lambda>n. n \<in> sr_name ` set
           [\<lparr>sr_name = ''Mars'', x_km = - 200000000, y_km = 100000000, vx_km_s = - 10, vy_km_s = - 20\<rparr>,
            \<lparr>sr_name = ''Venus'', x_km = 100000000, y_km = 30000000, vx_km_s = - 10, vy_km_s = 33\<rparr>,
            \<lparr>sr_name = ''Earth'', x_km = 149597870.7, y_km = 0, vx_km_s = 0, vy_km_s = 30\<rparr>])
          (map name getOrbitalBodies) = [''Venus'', ''Earth'', ''Mars'']"
    by (simp add: getOrbitalBodies_def)
  show ?thesis
    using h1 h2 partial_mapping_rows [OF h1 h2, of 2451545 "\<lparr>rows = [], spiceStatus = idle\<rparr>"]
    unfolding f by simp
qed

end
